theory Spec2Isabelle
  imports Main "HOL-Library.Sublist"
begin

section \<open>The reader view (reader.js)\<close>

subsection \<open>Render notifications\<close>

text \<open>
  The engine notifies the reader through the callback \<^verbatim>\<open>_render\<close>, whose parameter is the
  destructuring pattern
  \<^verbatim>\<open>{ state, chapIdx, sentIdx, totalChapters, chapterTitle, currentSentence }\<close>.
  The record below is that pattern: the state is a JavaScript string, the two indices and the
  chapter count are integers, the two texts are strings. Strings hold UTF-8 bytes.
\<close>

record payload =
  state :: string
  chapIdx :: int
  sentIdx :: int
  totalChapters :: int
  chapterTitle :: string
  currentSentence :: string

text \<open>The two non-ASCII literals of \<^verbatim>\<open>_render\<close>: U+2014 (em dash) and U+2026 (ellipsis).\<close>

definition em_dash :: string where
  "em_dash = [CHR 0xE2, CHR 0x80, CHR 0x94]"

definition ellipsis :: string where
  "ellipsis = [CHR 0xE2, CHR 0x80, CHR 0xA6]"

subsection \<open>The DOM elements the reader writes\<close>

text \<open>
  \<^verbatim>\<open>elCover.innerHTML\<close> is one of three templates; the gradient and the letter of the
  placeholder are computed from the title by \<^verbatim>\<open>utils.js\<close>, so the template is kept with
  the values it is filled from.
\<close>

datatype cover_html =
    CoverEmpty
  | CoverImg nat string
  | CoverPlaceholder string

text \<open>
  \<^verbatim>\<open>elFill.style.width\<close> is \<^verbatim>\<open>'0%'\<close> or the template
  \<^verbatim>\<open>`${(chNum / totalChapters) * 100}%`\<close>, kept with \<^verbatim>\<open>chNum\<close> and
  \<^verbatim>\<open>totalChapters\<close> (the quotient is a JavaScript double). \<^verbatim>\<open>elLabel.textContent\<close> is
  \<^verbatim>\<open>''\<close> or \<^verbatim>\<open>`Chapter ${chNum} of ${totalChapters}`\<close>.
\<close>

datatype fill_width = ZeroPercent | Percent int int

datatype progress_label = NoLabel | ChapterOf int int

datatype icon = IconPlay | IconPause

record view =
  bookTitleText :: string
  coverHtml :: cover_html
  chapterText :: string
  sentenceText :: string
  fillWidth :: fill_width
  labelText :: progress_label
  playIcon :: icon
  playTitle :: string
  playAriaLabel :: string
  playDisabled :: bool
  stopDisabled :: bool
  rewindDisabled :: bool
  forwardDisabled :: bool
  dataState :: string
  readerHidden :: bool
  mainHidden :: bool
  headerHidden :: bool

subsection \<open>\<^verbatim>\<open>_render\<close>: what a notification writes into the view\<close>

definition ready :: "payload \<Rightarrow> bool" where
  "ready p \<longleftrightarrow> state p \<noteq> ''idle'' \<and> state p \<noteq> ''loading'' \<and> totalChapters p > 0"

definition render_chapter :: "payload \<Rightarrow> string" where
  "render_chapter p =
     (if totalChapters p = 0 \<and> state p \<noteq> ''loading'' then ''No chapters found''
      else if chapterTitle p \<noteq> [] then chapterTitle p else em_dash)"

definition render_sentence :: "payload \<Rightarrow> string" where
  "render_sentence p =
     (if totalChapters p = 0 \<and> state p \<noteq> ''loading''
      then ''Remove and re-import this book to enable playback.''
      else if state p = ''loading'' then ''Loading'' @ ellipsis
      else if state p = ''stopped'' \<and> currentSentence p = [] then ''Press play to start.''
      else currentSentence p)"

definition render_view :: "payload \<Rightarrow> view \<Rightarrow> view" where
  "render_view p v =
     (let chNum = chapIdx p + 1;
          isPlaying = (state p = ''playing'')
      in v\<lparr> chapterText := render_chapter p,
            sentenceText := render_sentence p,
            fillWidth := (if totalChapters p > 0 then Percent chNum (totalChapters p)
                          else ZeroPercent),
            labelText := (if totalChapters p > 0 then ChapterOf chNum (totalChapters p)
                          else NoLabel),
            playIcon := (if isPlaying then IconPause else IconPlay),
            playTitle := (if isPlaying then ''Pause'' else ''Play''),
            playAriaLabel := (if isPlaying then ''Pause'' else ''Play''),
            playDisabled := (\<not> ready p),
            stopDisabled := (\<not> ready p \<or> state p = ''stopped''),
            rewindDisabled := (\<not> ready p),
            forwardDisabled := (\<not> ready p),
            dataState := state p \<rparr>)"

subsection \<open>The reader module's state\<close>

text \<open>
  The module variables of reader.js are \<^verbatim>\<open>engine\<close>, \<^verbatim>\<open>coverUrl\<close>,
  \<^verbatim>\<open>lastState\<close> and \<^verbatim>\<open>kbAbort\<close>. Objects are named by the number they were created
  under (\<^verbatim>\<open>fresh\<close> counts the objects created so far), so two constructions never give the
  same instance. The class \<^verbatim>\<open>TTSEngine\<close> is in tts.js, which is not among the sources:
  the model records every call the reader makes on an engine instance in \<^verbatim>\<open>trace\<close>, in
  the order the calls happen, and takes what the engine does in return (the notifications
  it delivers to \<^verbatim>\<open>_render\<close> while a call runs) as an input.
\<close>

datatype engine_method = Open nat | Play | Pause | Stop | Rewind | Forward | Destroy

datatype event =
    EvNew nat
  | EvCall nat engine_method
  | EvRender payload
  | EvAlert string
  | EvCreateObjectURL nat nat
  | EvRevokeObjectURL nat
  | EvAddKeyListener nat
  | EvAbort nat
  | EvPreventDefault

text \<open>
  A book as Dexie stores and returns it (db.js): the key \<^verbatim>\<open>id\<close>, the indexed fields, and the
  two that are stored without an index. A blob is named by a number.
\<close>

record book =
  book_id :: nat
  title :: string
  author :: string
  filename :: string
  fileSize :: nat
  addedAt :: nat
  coverBlob :: "nat option"
  chapterCount :: nat

record reader =
  engine :: "nat option"
  coverUrl :: "nat option"
  lastState :: string
  kbAbort :: "nat option"
  page :: view
  trace :: "event list"
  fresh :: nat

definition emit :: "event \<Rightarrow> reader \<Rightarrow> reader" where
  "emit ev r = r\<lparr>trace := trace r @ [ev]\<rparr>"

definition render :: "payload \<Rightarrow> reader \<Rightarrow> reader" where
  "render p r = emit (EvRender p) (r\<lparr>lastState := state p, page := render_view p (page r)\<rparr>)"

text \<open>The notifications an engine delivers while one of its methods runs, oldest first.\<close>

fun renders :: "payload list \<Rightarrow> reader \<Rightarrow> reader" where
  "renders [] r = r"
| "renders (p # ps) r = renders ps (render p r)"

text \<open>
  \<^verbatim>\<open>engine?.m()\<close>: nothing happens without an engine; with one, the call is made and the
  engine's notifications \<open>ps\<close> arrive before it returns.
\<close>

definition call_engine :: "engine_method \<Rightarrow> payload list \<Rightarrow> reader \<Rightarrow> reader" where
  "call_engine m ps r =
     (case engine r of
        None \<Rightarrow> r
      | Some e \<Rightarrow> renders ps (emit (EvCall e m) r))"

definition destroyEngine :: "payload list \<Rightarrow> reader \<Rightarrow> reader" where
  "destroyEngine ps r = (call_engine Destroy ps r)\<lparr>engine := None, lastState := ''idle''\<rparr>"

definition releaseCover :: "reader \<Rightarrow> reader" where
  "releaseCover r =
     (let r1 = (case coverUrl r of
                  None \<Rightarrow> r
                | Some u \<Rightarrow> (emit (EvRevokeObjectURL u) r)\<lparr>coverUrl := None\<rparr>)
      in r1\<lparr>page := (page r1)\<lparr>coverHtml := CoverEmpty\<rparr>\<rparr>)"

definition loading_payload :: payload where
  "loading_payload = \<lparr>state = ''loading'', chapIdx = 0, sentIdx = 0, totalChapters = 0,
                       chapterTitle = [], currentSentence = []\<rparr>"

definition show_cover :: "book \<Rightarrow> reader \<Rightarrow> reader" where
  "show_cover b r =
     (case coverBlob b of
        Some blob \<Rightarrow>
          (emit (EvCreateObjectURL blob (fresh r)) r)
            \<lparr>coverUrl := Some (fresh r),
             page := (page r)\<lparr>coverHtml := CoverImg (fresh r) (title b)\<rparr>,
             fresh := Suc (fresh r)\<rparr>
      | None \<Rightarrow> r\<lparr>page := (page r)\<lparr>coverHtml := CoverPlaceholder (title b)\<rparr>\<rparr>)"

definition show_reader :: "reader \<Rightarrow> reader" where
  "show_reader r =
     r\<lparr>page := (page r)\<lparr>readerHidden := False, mainHidden := True, headerHidden := True\<rparr>\<rparr>"

definition listen_keys :: "reader \<Rightarrow> reader" where
  "listen_keys r =
     (emit (EvAddKeyListener (fresh r)) r)\<lparr>kbAbort := Some (fresh r), fresh := Suc (fresh r)\<rparr>"

text \<open>
  \<^verbatim>\<open>engine = new TTSEngine(_render)\<close>: the constructor runs, with the notifications \<open>ps\<close> it
  delivers, and then the instance is assigned.
\<close>

definition new_engine :: "payload list \<Rightarrow> reader \<Rightarrow> reader" where
  "new_engine ps r =
     (renders ps (emit (EvNew (fresh r)) (r\<lparr>fresh := Suc (fresh r)\<rparr>)))\<lparr>engine := Some (fresh r)\<rparr>"

text \<open>
  \<^verbatim>\<open>openReader(book)\<close> up to its \<^verbatim>\<open>await\<close>. \<open>supported\<close> is
  \<^verbatim>\<open>'speechSynthesis' in window\<close>; \<open>ps_destroy\<close>, \<open>ps_new\<close> and \<open>ps_open\<close> are the
  notifications the old engine delivers inside \<^verbatim>\<open>destroy()\<close>, and the new one inside its
  constructor and inside \<^verbatim>\<open>open(book.id)\<close> before it first suspends.
\<close>

definition openReader ::
  "bool \<Rightarrow> book \<Rightarrow> payload list \<Rightarrow> payload list \<Rightarrow> payload list \<Rightarrow> reader \<Rightarrow> reader" where
  "openReader supported b ps_destroy ps_new ps_open r =
     (let r1 = releaseCover (destroyEngine ps_destroy r) in
      if \<not> supported
      then emit (EvAlert ''Text-to-speech is not supported in this browser.'') r1
      else
        let r2 = r1\<lparr>page := (page r1)\<lparr>bookTitleText := title b\<rparr>\<rparr>;
            r3 = show_reader (show_cover b r2);
            r4 = render loading_payload r3;
            r5 = new_engine ps_new (listen_keys r4)
        in call_engine (Open (book_id b)) ps_open r5)"

text \<open>
  The rest of \<^verbatim>\<open>openReader\<close>, run when the promise of \<^verbatim>\<open>engine.open\<close> settles:
  nothing when it resolves (\<open>None\<close>), the \<^verbatim>\<open>catch\<close> block when it rejects with an error
  whose message is \<open>msg\<close>.
\<close>

definition open_settled :: "string option \<Rightarrow> reader \<Rightarrow> reader" where
  "open_settled outcome r =
     (case outcome of
        None \<Rightarrow> r
      | Some msg \<Rightarrow>
          r\<lparr>page := (page r)\<lparr>chapterText := ''Failed to load book'', sentenceText := msg\<rparr>\<rparr>)"

definition abort_keys :: "reader \<Rightarrow> reader" where
  "abort_keys r =
     (case kbAbort r of
        None \<Rightarrow> r
      | Some c \<Rightarrow> emit (EvAbort c) r)\<lparr>kbAbort := None\<rparr>"

definition hide_reader :: "reader \<Rightarrow> reader" where
  "hide_reader r =
     r\<lparr>page := (page r)\<lparr>readerHidden := True, mainHidden := False, headerHidden := False\<rparr>\<rparr>"

definition closeReader :: "payload list \<Rightarrow> payload list \<Rightarrow> reader \<Rightarrow> reader" where
  "closeReader ps_stop ps_destroy r =
     hide_reader (abort_keys (releaseCover (destroyEngine ps_destroy (call_engine Stop ps_stop r))))"

subsection \<open>Button and keyboard handlers\<close>

definition click_play :: "payload list \<Rightarrow> reader \<Rightarrow> reader" where
  "click_play ps r =
     (case engine r of
        None \<Rightarrow> r
      | Some e \<Rightarrow>
          if lastState r = ''playing'' then call_engine Pause ps r else call_engine Play ps r)"

definition click_stop :: "payload list \<Rightarrow> reader \<Rightarrow> reader" where
  "click_stop ps r = call_engine Stop ps r"

definition click_rewind :: "payload list \<Rightarrow> reader \<Rightarrow> reader" where
  "click_rewind ps r = call_engine Rewind ps r"

definition click_forward :: "payload list \<Rightarrow> reader \<Rightarrow> reader" where
  "click_forward ps r = call_engine Forward ps r"

text \<open>
  \<^verbatim>\<open>_onKeyDown(e)\<close>: \<open>key\<close> is \<^verbatim>\<open>e.key\<close>, \<open>in_control\<close> says whether
  \<^verbatim>\<open>e.target.closest('input, textarea, select, button')\<close> finds an element. Escape closes the
  reader, so the handler takes the notifications of two engine calls.
\<close>

definition onKeyDown :: "string \<Rightarrow> bool \<Rightarrow> payload list \<Rightarrow> payload list \<Rightarrow> reader \<Rightarrow> reader" where
  "onKeyDown key in_control ps ps' r =
     (if in_control then r
      else if key = '' '' then
        (let r1 = emit EvPreventDefault r in
         if lastState r1 = ''playing'' then call_engine Pause ps r1 else call_engine Play ps r1)
      else if key = ''ArrowLeft'' then call_engine Rewind ps (emit EvPreventDefault r)
      else if key = ''ArrowRight'' then call_engine Forward ps (emit EvPreventDefault r)
      else if key = ''Escape'' then closeReader ps ps' r
      else r)"

subsection \<open>The reader as a machine\<close>

text \<open>
  What can happen to the module, one input at a time: its exported functions are called, a
  pending \<^verbatim>\<open>engine.open\<close> settles, the engine notifies the reader on its own, a button is
  clicked, a key goes down. A key can go down at any time here, also when the listener is
  not registered: the machine has at least the runs of the page.
\<close>

datatype input =
    OpenReader bool book "payload list" "payload list" "payload list"
  | OpenSettled "string option"
  | CloseReader "payload list" "payload list"
  | Notify payload
  | ClickPlay "payload list"
  | ClickStop "payload list"
  | ClickRewind "payload list"
  | ClickForward "payload list"
  | KeyDown string bool "payload list" "payload list"

fun step :: "reader \<Rightarrow> input \<Rightarrow> reader" where
  "step r (OpenReader supported b ps pn ps') = openReader supported b ps pn ps' r"
| "step r (OpenSettled outcome) = open_settled outcome r"
| "step r (CloseReader ps ps') = closeReader ps ps' r"
| "step r (Notify p) = render p r"
| "step r (ClickPlay ps) = click_play ps r"
| "step r (ClickStop ps) = click_stop ps r"
| "step r (ClickRewind ps) = click_rewind ps r"
| "step r (ClickForward ps) = click_forward ps r"
| "step r (KeyDown key in_control ps ps') = onKeyDown key in_control ps ps' r"

definition run :: "input list \<Rightarrow> reader \<Rightarrow> reader" where
  "run ins r = foldl step r ins"

text \<open>
  The module as loaded: no engine, no cover URL, \<^verbatim>\<open>lastState = 'idle'\<close>, nothing called
  yet. The page (index.html) is not among the sources, so the view the module starts from
  is a parameter.
\<close>

definition init :: "view \<Rightarrow> reader" where
  "init v = \<lparr>engine = None, coverUrl = None, lastState = ''idle'', kbAbort = None,
             page = v, trace = [], fresh = 0\<rparr>"

text \<open>A page for the examples: empty texts, reader section hidden, controls enabled.\<close>

definition blank_view :: view where
  "blank_view = \<lparr>bookTitleText = [], coverHtml = CoverEmpty, chapterText = [],
     sentenceText = [], fillWidth = ZeroPercent, labelText = NoLabel, playIcon = IconPlay,
     playTitle = ''Play'', playAriaLabel = ''Play'', playDisabled = False,
     stopDisabled = False, rewindDisabled = False, forwardDisabled = False,
     dataState = [], readerHidden = True, mainHidden = False, headerHidden = False\<rparr>"

subsection \<open>Reading the trace\<close>

text \<open>
  The engine instances that are live after a trace: constructed and not yet destroyed, in
  the order of their construction.
\<close>

fun live_step :: "nat list \<Rightarrow> event \<Rightarrow> nat list" where
  "live_step es (EvNew e) = es @ [e]"
| "live_step es (EvCall e Destroy) = removeAll e es"
| "live_step es _ = es"

definition live_from :: "nat list \<Rightarrow> event list \<Rightarrow> nat list" where
  "live_from es t = foldl live_step es t"

definition live :: "event list \<Rightarrow> nat list" where
  "live t = live_from [] t"

text \<open>The state the view was last rendered with: that of the latest \<^verbatim>\<open>_render\<close> call.\<close>

fun last_step :: "string option \<Rightarrow> event \<Rightarrow> string option" where
  "last_step s (EvRender p) = Some (state p)"
| "last_step s _ = s"

definition last_rendered_from :: "string option \<Rightarrow> event list \<Rightarrow> string option" where
  "last_rendered_from s t = foldl last_step s t"

definition last_rendered :: "event list \<Rightarrow> string option" where
  "last_rendered t = last_rendered_from None t"

text \<open>The methods called on engine \<open>e\<close>, in the order of the calls.\<close>

fun calls_on :: "nat \<Rightarrow> event list \<Rightarrow> engine_method list" where
  "calls_on e [] = []"
| "calls_on e (EvCall e' m # t) = (if e' = e then m # calls_on e t else calls_on e t)"
| "calls_on e (_ # t) = calls_on e t"

text \<open>What a handler that takes \<open>r\<close> to \<open>r'\<close> has added to the trace.\<close>

definition added :: "reader \<Rightarrow> reader \<Rightarrow> event list" where
  "added r r' = drop (length (trace r)) (trace r')"

text \<open>\<open>precedes a b t\<close>: in \<open>t\<close>, no \<open>b\<close> happens until \<open>a\<close> has happened.\<close>

fun precedes :: "event \<Rightarrow> event \<Rightarrow> event list \<Rightarrow> bool" where
  "precedes a b [] = True"
| "precedes a b (x # t) = (if x = a then True else x \<noteq> b \<and> precedes a b t)"

text \<open>
  The engine's side of a sequence of calls. What a method does to the engine is in tts.js;
  here it is a parameter \<open>sem\<close>, a function from the method and the engine's state to its
  next state.
\<close>

definition apply_calls :: "(engine_method \<Rightarrow> 's \<Rightarrow> 's) \<Rightarrow> engine_method list \<Rightarrow> 's \<Rightarrow> 's" where
  "apply_calls sem ms s = foldl (\<lambda>s m. sem m s) s ms"

subsection \<open>Invariants of the reader\<close>

text \<open>\<open>bounded_from es t\<close>: starting with the live engines \<open>es\<close>, at no point of \<open>t\<close> are two engines live.\<close>

definition bounded_from :: "nat list \<Rightarrow> event list \<Rightarrow> bool" where
  "bounded_from es t \<longleftrightarrow> (\<forall>t'. prefix t' t \<longrightarrow> length (live_from es t') \<le> 1)"

text \<open>The invariant: the live engines are exactly the one \<^verbatim>\<open>engine\<close> holds, and never were two.\<close>

definition one_engine :: "reader \<Rightarrow> bool" where
  "one_engine r \<longleftrightarrow>
     bounded_from [] (trace r)
     \<and> live (trace r) = (case engine r of None \<Rightarrow> [] | Some e \<Rightarrow> [e])"

text \<open>
  While an engine is held, \<^verbatim>\<open>lastState\<close> is the state of the latest \<^verbatim>\<open>_render\<close> call:
  \<^verbatim>\<open>_destroyEngine\<close> resets it to \<^verbatim>\<open>'idle'\<close> without rendering, but \<^verbatim>\<open>openReader\<close> renders
  the loading payload before it constructs the next engine.
\<close>

definition shown :: "reader \<Rightarrow> bool" where
  "shown r \<longleftrightarrow> (engine r \<noteq> None \<longrightarrow> last_rendered (trace r) = Some (lastState r))"

subsection \<open>Example runs\<close>

definition demo_book :: book where
  "demo_book = \<lparr>book_id = 7, title = ''Emma'', author = ''Jane Austen'',
                 filename = ''emma.epub'', fileSize = 450000, addedAt = 1700000000,
                 coverBlob = Some 3, chapterCount = 2\<rparr>"

definition playing_payload :: payload where
  "playing_payload = \<lparr>state = ''playing'', chapIdx = 0, sentIdx = 3, totalChapters = 2,
                       chapterTitle = ''Volume I'', currentSentence = ''She was happy.''\<rparr>"

text \<open>The book is opened twice in a row, the second engine notifying once inside \<^verbatim>\<open>open\<close>.\<close>

definition demo_reopen :: "input list" where
  "demo_reopen = [OpenReader True demo_book [] [] [], OpenReader True demo_book [] [] [loading_payload]]"

text \<open>The book is opened, loads, and play is clicked; the engine answers with a notification.\<close>

definition demo_playing :: "input list" where
  "demo_playing = [OpenReader True demo_book [] [] [loading_payload], OpenSettled None,
                   ClickPlay [playing_payload]]"

section \<open>The notification as a JavaScript object\<close>

text \<open>
  What is passed to \<^verbatim>\<open>_render\<close> is an object, and the parameter pattern reads six of its
  properties by name. An object is a map from property names to values; a value is a
  string or an integer.
\<close>

datatype jsval = JStr string | JNum int

type_synonym jsobject = "string \<rightharpoonup> jsval"

text \<open>The property names of the pattern, in its order.\<close>

definition payload_fields :: "string list" where
  "payload_fields = [''state'', ''chapIdx'', ''sentIdx'', ''totalChapters'', ''chapterTitle'',
                     ''currentSentence'']"

definition str_prop :: "jsobject \<Rightarrow> string \<Rightarrow> string option" where
  "str_prop obj k = (case obj k of Some (JStr s) \<Rightarrow> Some s | _ \<Rightarrow> None)"

definition num_prop :: "jsobject \<Rightarrow> string \<Rightarrow> int option" where
  "num_prop obj k = (case obj k of Some (JNum n) \<Rightarrow> Some n | _ \<Rightarrow> None)"

text \<open>
  The payload the pattern binds. The result is \<open>None\<close> when one of the six variables would
  be \<^verbatim>\<open>undefined\<close> (the object has no property of that name) or is not of the type the body
  of \<^verbatim>\<open>_render\<close> uses it at; JavaScript runs the body all the same, on \<^verbatim>\<open>undefined\<close>, which
  the typed model of \<^verbatim>\<open>_render\<close> does not follow.
\<close>

definition destructure :: "jsobject \<Rightarrow> payload option" where
  "destructure obj =
     (case str_prop obj ''state'' of None \<Rightarrow> None | Some s \<Rightarrow>
      case num_prop obj ''chapIdx'' of None \<Rightarrow> None | Some c \<Rightarrow>
      case num_prop obj ''sentIdx'' of None \<Rightarrow> None | Some i \<Rightarrow>
      case num_prop obj ''totalChapters'' of None \<Rightarrow> None | Some n \<Rightarrow>
      case str_prop obj ''chapterTitle'' of None \<Rightarrow> None | Some t \<Rightarrow>
      case str_prop obj ''currentSentence'' of None \<Rightarrow> None | Some x \<Rightarrow>
        Some \<lparr>state = s, chapIdx = c, sentIdx = i, totalChapters = n, chapterTitle = t,
              currentSentence = x\<rparr>)"

text \<open>
  The object literal \<^verbatim>\<open>openReader\<close> passes to \<^verbatim>\<open>_render\<close>,
  \<^verbatim>\<open>{ state: .., chapIdx: .., sentIdx: .., totalChapters: .., chapterTitle: .., currentSentence: .. }\<close>,
  for any six values.
\<close>

definition object_of :: "payload \<Rightarrow> jsobject" where
  "object_of p = [''state'' \<mapsto> JStr (state p), ''chapIdx'' \<mapsto> JNum (chapIdx p),
                  ''sentIdx'' \<mapsto> JNum (sentIdx p), ''totalChapters'' \<mapsto> JNum (totalChapters p),
                  ''chapterTitle'' \<mapsto> JStr (chapterTitle p),
                  ''currentSentence'' \<mapsto> JStr (currentSentence p)]"

text \<open>The object literal of \<^verbatim>\<open>openReader\<close> itself, with the values it has there.\<close>

definition loading_object :: jsobject where
  "loading_object = [''state'' \<mapsto> JStr ''loading'', ''chapIdx'' \<mapsto> JNum 0,
                     ''sentIdx'' \<mapsto> JNum 0, ''totalChapters'' \<mapsto> JNum 0,
                     ''chapterTitle'' \<mapsto> JStr [], ''currentSentence'' \<mapsto> JStr []]"

text \<open>
  \<^verbatim>\<open>_render\<close> as it is called, on an object: the parameter pattern binds the payload and
  the body, \<open>render\<close>, runs on it. The machine above takes its notifications already
  bound (\<open>Notify p\<close>); this is the step from the object to them.
\<close>

definition render_object :: "jsobject \<Rightarrow> reader \<Rightarrow> reader option" where
  "render_object obj r = map_option (\<lambda>p. render p r) (destructure obj)"

text \<open>An object with the six property names the specification gives.\<close>

definition spec_object :: jsobject where
  "spec_object = [''state'' \<mapsto> JStr ''playing'', ''chapterIndex'' \<mapsto> JNum 0,
                  ''sentenceIndex'' \<mapsto> JNum 3, ''totalChapters'' \<mapsto> JNum 2,
                  ''chapterTitle'' \<mapsto> JStr ''Volume I'',
                  ''currentSentenceText'' \<mapsto> JStr ''She was happy.'']"

section \<open>The database (db.js)\<close>

text \<open>
  Version 2 of the schema has two tables: \<^verbatim>\<open>books: '++id, title, author, filename, fileSize, addedAt'\<close>
  and \<^verbatim>\<open>chapters: '++id, bookId, spineIndex'\<close>, with \<^verbatim>\<open>title\<close> and \<^verbatim>\<open>href\<close> stored
  without an index. A table is the list of its records in key order; \<^verbatim>\<open>++id\<close> is a key
  generator, which starts at 1 and never gives a key twice.
\<close>

record chapter_rec =
  chapter_id :: nat
  bookId :: nat
  spineIndex :: nat
  chapter_title :: string
  href :: string

record database =
  books :: "book list"
  chapters :: "chapter_rec list"
  next_book :: nat
  next_chapter :: nat

definition empty_db :: database where
  "empty_db = \<lparr>books = [], chapters = [], next_book = 1, next_chapter = 1\<rparr>"

text \<open>
  Modelled from the spec: a book record is created on import (section 3); the code that
  adds it is not among the sources. Its key comes from the generator that \<^verbatim>\<open>++id\<close>
  declares in db.js.
\<close>

definition books_add :: "book \<Rightarrow> database \<Rightarrow> database" where
  "books_add bk d = d\<lparr>books := books d @ [bk\<lparr>book_id := next_book d\<rparr>],
                       next_book := Suc (next_book d)\<rparr>"

text \<open>\<^verbatim>\<open>db.books.delete(id)\<close>.\<close>

definition books_delete :: "nat \<Rightarrow> database \<Rightarrow> database" where
  "books_delete k d = d\<lparr>books := filter (\<lambda>bk. book_id bk \<noteq> k) (books d)\<rparr>"

text \<open>\<^verbatim>\<open>db.chapters.where('bookId').equals(id).delete()\<close>.\<close>

definition chapters_delete_where_bookId :: "nat \<Rightarrow> database \<Rightarrow> database" where
  "chapters_delete_where_bookId k d =
     d\<lparr>chapters := filter (\<lambda>c. bookId c \<noteq> k) (chapters d)\<rparr>"

subsection \<open>Writing and reading chapters\<close>

text \<open>
  Modelled from the spec: the chapter record the Chapter Assembler creates for the item
  at spine position \<open>i\<close> of book \<open>b\<close>, with its title and source document reference
  (sections 3 and 4.6). The code that writes chapters is not among the sources.
\<close>

definition new_chapter :: "nat \<Rightarrow> nat \<Rightarrow> nat \<times> string \<times> string \<Rightarrow> chapter_rec" where
  "new_chapter n b = (\<lambda>(i, t, h). \<lparr>chapter_id = n + i, bookId = b, spineIndex = i,
                                    chapter_title = t, href = h\<rparr>)"

text \<open>
  Modelled from the spec: \<^verbatim>\<open>putChapters(bookId, orderedChapterList)\<close> of section 6, which is
  not among the sources. It stores one record per chapter of the ordered list, in spine
  order, under keys of the table's generator.
\<close>

definition putChapters :: "nat \<Rightarrow> (string \<times> string) list \<Rightarrow> database \<Rightarrow> database" where
  "putChapters b cs d =
     d\<lparr>chapters := chapters d @ map (new_chapter (next_chapter d) b) (enumerate 0 cs),
       next_chapter := next_chapter d + length cs\<rparr>"

text \<open>
  Modelled from the spec: \<^verbatim>\<open>getChapters(bookId)\<close> of section 6, which is not among the
  sources: "keyed by book id, returns in spine-index order".
\<close>

definition getChapters :: "nat \<Rightarrow> database \<Rightarrow> chapter_rec list" where
  "getChapters b d = sort_key spineIndex (filter (\<lambda>c. bookId c = b) (chapters d))"

text \<open>
  Modelled from the spec: the import of a book, which is not among the sources. The book
  is added to the library with its chapter count, and its chapters are created once, by
  the Chapter Assembler (sections 3 and 4.6).
\<close>

definition importBook :: "book \<Rightarrow> (string \<times> string) list \<Rightarrow> database \<Rightarrow> database" where
  "importBook bk cs d =
     putChapters (next_book d) cs (books_add (bk\<lparr>chapterCount := length cs\<rparr>) d)"

text \<open>
  The operations that change the two tables: the import, and the two deletions that
  \<^verbatim>\<open>confirmRemove\<close> (bookCard.js) issues, each of which may happen without the other.
\<close>

datatype db_op = Import book "(string \<times> string) list" | DeleteBook nat | DeleteChapters nat

fun db_step :: "database \<Rightarrow> db_op \<Rightarrow> database" where
  "db_step d (Import bk cs) = importBook bk cs d"
| "db_step d (DeleteBook k) = books_delete k d"
| "db_step d (DeleteChapters k) = chapters_delete_where_bookId k d"

definition db_run :: "db_op list \<Rightarrow> database" where
  "db_run ops = foldl db_step empty_db ops"

definition of_book :: "nat \<Rightarrow> database \<Rightarrow> chapter_rec list" where
  "of_book b d = filter (\<lambda>c. bookId c = b) (chapters d)"

text \<open>
  The invariant of the chapters table: every chapter belongs to a book whose key has been
  given out, and within a book no spine index occurs twice.
\<close>

definition spine_ok :: "database \<Rightarrow> bool" where
  "spine_ok d \<longleftrightarrow> (\<forall>c \<in> set (chapters d). bookId c < next_book d)
                 \<and> (\<forall>b. distinct (map spineIndex (of_book b d)))"

section \<open>The library grid (bookCard.js)\<close>

text \<open>
  Modelled from the spec: the two stores outside the database. The raw files are kept by
  storage.js and the playback positions by the engine (tts.js); neither is among the
  sources. \<open>cache\<close> holds the ids of the books with a stored raw file (the book's source
  file reference, section 3), \<open>positions\<close> the persisted position of a book, chapter index
  and sentence index, one row per book (section 3).
\<close>

record storage =
  cache :: "nat list"
  positions :: "nat \<rightharpoonup> nat \<times> nat"

text \<open>
  What \<^verbatim>\<open>confirmRemove\<close> reads and writes: the database, the two stores above, the map
  \<^verbatim>\<open>_objectUrls\<close>, the cards of the grid (each by its \<^verbatim>\<open>data-id\<close>, in document order), the
  \<^verbatim>\<open>hidden\<close> class of the grid and of the empty state, the toasts shown, the object URLs
  revoked and the console.
\<close>

record library =
  db :: database
  stores :: storage
  objectUrls :: "nat \<rightharpoonup> nat"
  cards :: "nat list"
  gridHidden :: bool
  emptyHidden :: bool
  toasts :: "(string \<times> string) list"
  revoked :: "nat list"
  console_errors :: "string list"

text \<open>How a promise settles.\<close>

datatype settled = Fulfilled | Rejected

text \<open>
  Modelled from the spec: \<^verbatim>\<open>deleteBook(bookId)\<close> of storage.js, which is not among the
  sources. It deletes the stored raw file of the book and the book's playback position
  (section 6: the removal "cascades chapters and position"). It leaves the database
  alone: the chapter rows of the cascade are deleted by the call
  \<^verbatim>\<open>db.chapters.where('bookId').equals(book.id).delete()\<close> of \<^verbatim>\<open>confirmRemove\<close> itself.
\<close>

definition deleteBook :: "nat \<Rightarrow> library \<Rightarrow> library" where
  "deleteBook k l =
     l\<lparr>stores := \<lparr>cache = removeAll k (cache (stores l)),
                   positions = (positions (stores l))(k := None)\<rparr>\<rparr>"

definition updateEmptyState :: "library \<Rightarrow> library" where
  "updateEmptyState l =
     (let hasBooks = (length (cards l) > 0)
      in l\<lparr>gridHidden := \<not> hasBooks, emptyHidden := hasBooks\<rparr>)"

text \<open>\<^verbatim>\<open>showToast\<close> is in utils.js; the model keeps the messages shown, with their kind.\<close>

definition showToast :: "string \<Rightarrow> string \<Rightarrow> library \<Rightarrow> library" where
  "showToast msg kind l = l\<lparr>toasts := toasts l @ [(msg, kind)]\<rparr>"

definition revoke_card_url :: "nat \<Rightarrow> library \<Rightarrow> library" where
  "revoke_card_url k l =
     (case objectUrls l k of
        None \<Rightarrow> l
      | Some u \<Rightarrow> l\<lparr>revoked := revoked l @ [u], objectUrls := (objectUrls l)(k := None)\<rparr>)"

text \<open>
  The three deletions of \<^verbatim>\<open>Promise.all\<close> are started together; how each settles is an
  input. A deletion that is rejected leaves its store as it was.
\<close>

definition deletions :: "settled \<Rightarrow> settled \<Rightarrow> settled \<Rightarrow> nat \<Rightarrow> library \<Rightarrow> library" where
  "deletions o_book o_chapters o_file k l =
     (let l1 = (if o_book = Fulfilled then l\<lparr>db := books_delete k (db l)\<rparr> else l);
          l2 = (if o_chapters = Fulfilled
                then l1\<lparr>db := chapters_delete_where_bookId k (db l1)\<rparr> else l1)
      in if o_file = Fulfilled then deleteBook k l2 else l2)"

text \<open>
  \<^verbatim>\<open>confirmRemove(book)\<close>; \<open>confirmed\<close> is the answer to \<^verbatim>\<open>confirm(..)\<close>.
  \<^verbatim>\<open>querySelector\<close> finds the first card with the book's \<^verbatim>\<open>data-id\<close>.
\<close>

definition confirmRemove ::
  "bool \<Rightarrow> settled \<Rightarrow> settled \<Rightarrow> settled \<Rightarrow> book \<Rightarrow> library \<Rightarrow> library" where
  "confirmRemove confirmed o_book o_chapters o_file b l =
     (if \<not> confirmed then l
      else
        let l1 = deletions o_book o_chapters o_file (book_id b) l in
        if o_book = Fulfilled \<and> o_chapters = Fulfilled \<and> o_file = Fulfilled
        then
          showToast ''Book removed from library'' ''success''
            (updateEmptyState
              ((revoke_card_url (book_id b) l1)\<lparr>cards := remove1 (book_id b) (cards l1)\<rparr>))
        else
          showToast ''Failed to remove book'' ''error''
            (l1\<lparr>console_errors := console_errors l1 @ [''Failed to remove book'']\<rparr>))"

text \<open>A library with one imported book, which has a cover and a saved position.\<close>

definition demo_ops :: "db_op list" where
  "demo_ops = [Import demo_book [(''Volume I'', ''v1.xhtml''), (''Volume II'', ''v2.xhtml'')]]"

definition demo_library :: library where
  "demo_library = \<lparr>db = db_run demo_ops,
     stores = \<lparr>cache = [1], positions = [1 \<mapsto> (0, 3)]\<rparr>,
     objectUrls = [1 \<mapsto> 0], cards = [1], gridHidden = False, emptyHidden = True,
     toasts = [], revoked = [], console_errors = []\<rparr>"

definition stored_book :: book where
  "stored_book = demo_book\<lparr>book_id := 1\<rparr>"

section \<open>The sentence tokenizer\<close>

text \<open>
  The tokenizer is not among the sources. Every definition of this section is modelled
  from section 4.5 of the spec.
\<close>

text \<open>Modelled from the spec: the tokenizer "splits on \<^verbatim>\<open>.\<close>, \<^verbatim>\<open>?\<close>, \<^verbatim>\<open>!\<close>".\<close>

definition is_terminal :: "char \<Rightarrow> bool" where
  "is_terminal c \<longleftrightarrow> c = CHR ''.'' \<or> c = CHR ''?'' \<or> c = CHR ''!''"

text \<open>Modelled from the spec: "whitespace" is a space, a tab, a line feed or a carriage return.\<close>

definition is_space :: "char \<Rightarrow> bool" where
  "is_space c \<longleftrightarrow> c = CHR '' '' \<or> c = CHR 0x09 \<or> c = CHR 0x0A \<or> c = CHR 0x0D"

text \<open>Modelled from the spec: "a digit".\<close>

definition is_digit :: "char \<Rightarrow> bool" where
  "is_digit c \<longleftrightarrow> c \<in> set ''0123456789''"

text \<open>Modelled from the spec: the letter of a "single initial like A.".\<close>

definition is_upper :: "char \<Rightarrow> bool" where
  "is_upper c \<longleftrightarrow> c \<in> set ''ABCDEFGHIJKLMNOPQRSTUVWXYZ''"

text \<open>Modelled from the spec: the "fixed set" of known abbreviation tokens, as far as it is listed.\<close>

definition abbreviations :: "string list" where
  "abbreviations = [''Mr'', ''Mrs'', ''Dr'', ''St'', ''vs'', ''etc'', ''e.g'', ''i.e'']"

text \<open>Modelled from the spec: "trailing/leading whitespace of each emitted sentence is trimmed".\<close>

definition trim :: "string \<Rightarrow> string" where
  "trim s = rev (dropWhile is_space (rev (dropWhile is_space s)))"

text \<open>
  Modelled from the spec: the token that immediately precedes a punctuation mark. \<open>left\<close>
  is the text to the left of the mark, latest character first.
\<close>

definition last_token :: "string \<Rightarrow> string" where
  "last_token left = rev (takeWhile (\<lambda>c. \<not> is_space c) left)"

text \<open>Modelled from the spec: "single initials like A.".\<close>

definition is_initial :: "string \<Rightarrow> bool" where
  "is_initial tok = (case tok of [c] \<Rightarrow> is_upper c | _ \<Rightarrow> False)"

text \<open>Modelled from the spec: whether the character next to the mark is a digit.\<close>

definition digit_at_head :: "string \<Rightarrow> bool" where
  "digit_at_head s = (case s of [] \<Rightarrow> False | c # _ \<Rightarrow> is_digit c)"

text \<open>Modelled from the spec: whether the mark is followed by another terminal mark (a run).\<close>

definition terminal_at_head :: "string \<Rightarrow> bool" where
  "terminal_at_head s = (case s of [] \<Rightarrow> False | c # _ \<Rightarrow> is_terminal c)"

text \<open>Modelled from the spec: the mark is "followed by whitespace or end-of-text".\<close>

definition boundary_follows :: "string \<Rightarrow> bool" where
  "boundary_follows s = (case s of [] \<Rightarrow> True | c # _ \<Rightarrow> is_space c)"

text \<open>
  Modelled from the spec: a split is suppressed when the mark is immediately preceded by
  a known abbreviation or a single initial, when it is a \<^verbatim>\<open>.\<close> with a digit on both sides,
  or when it is not the final character of a run of terminal marks.
\<close>

definition suppressed :: "string \<Rightarrow> char \<Rightarrow> string \<Rightarrow> bool" where
  "suppressed left c right \<longleftrightarrow>
     last_token left \<in> set abbreviations
     \<or> is_initial (last_token left)
     \<or> (c = CHR ''.'' \<and> digit_at_head left \<and> digit_at_head right)
     \<or> terminal_at_head right"

text \<open>
  Modelled from the spec: a sentence is emitted trimmed, if it is "non-empty after
  trimming". \<open>acc\<close> holds its characters, latest first.
\<close>

definition emit_sentence :: "string \<Rightarrow> string list" where
  "emit_sentence acc = (let s = trim (rev acc) in if s = [] then [] else [s])"

text \<open>Modelled from the spec: the scan over the text, left to right.\<close>

fun split_sentences :: "string \<Rightarrow> string \<Rightarrow> string list" where
  "split_sentences acc [] = emit_sentence acc"
| "split_sentences acc (c # cs) =
     (if is_terminal c \<and> boundary_follows cs \<and> \<not> suppressed acc c cs
      then emit_sentence (c # acc) @ split_sentences [] cs
      else split_sentences (c # acc) cs)"

text \<open>Modelled from the spec: \<^verbatim>\<open>tokenize(text)\<close> of sections 4.5 and 8.\<close>

definition tokenize :: "string \<Rightarrow> string list" where
  "tokenize text = split_sentences [] text"

section \<open>Facts about the reader's building blocks\<close>

lemma trace_renders [simp]: "trace (renders ps r) = trace r @ map EvRender ps"
  by (induction ps arbitrary: r) (simp_all add: render_def emit_def)

lemma engine_renders [simp]: "engine (renders ps r) = engine r"
  by (induction ps arbitrary: r) (simp_all add: render_def emit_def)

lemma other_renders [simp]:
  "coverUrl (renders ps r) = coverUrl r"
  "kbAbort (renders ps r) = kbAbort r"
  "fresh (renders ps r) = fresh r"
  by (induction ps arbitrary: r) (simp_all add: render_def emit_def)

lemma lastState_renders [simp]:
  "lastState (renders ps r) = (if ps = [] then lastState r else state (last ps))"
  by (induction ps arbitrary: r) (simp_all add: render_def emit_def)

lemma renders_append: "renders (ps @ qs) r = renders qs (renders ps r)"
  by (induction ps arbitrary: r) simp_all

lemma run_Notify: "run (map Notify qs) r = renders qs r"
  unfolding run_def by (induction qs arbitrary: r) simp_all

lemma added_trace [simp]: "trace r' = trace r @ t \<Longrightarrow> added r r' = t"
  by (simp add: added_def)

lemmas reader_defs = run_def init_def openReader_def closeReader_def destroyEngine_def
  call_engine_def releaseCover_def emit_def show_cover_def show_reader_def hide_reader_def
  abort_keys_def render_def new_engine_def listen_keys_def Let_def click_play_def
  click_stop_def click_rewind_def click_forward_def onKeyDown_def open_settled_def

lemma trace_demo_reopen:
  "trace (run demo_reopen (init blank_view)) =
     [EvCreateObjectURL 3 0, EvRender loading_payload, EvAddKeyListener 1, EvNew 2,
      EvCall 2 (Open 7), EvCall 2 Destroy, EvRevokeObjectURL 0, EvCreateObjectURL 3 3,
      EvRender loading_payload, EvAddKeyListener 4, EvNew 5, EvCall 5 (Open 7),
      EvRender loading_payload]"
  by (simp add: demo_reopen_def reader_defs demo_book_def)

lemma trace_demo_playing:
  "trace (run demo_playing (init blank_view)) =
     [EvCreateObjectURL 3 0, EvRender loading_payload, EvAddKeyListener 1, EvNew 2,
      EvCall 2 (Open 7), EvRender loading_payload, EvCall 2 Play, EvRender playing_payload]"
  by (simp add: demo_playing_def reader_defs demo_book_def loading_payload_def)

lemma engine_demo_playing: "engine (run demo_playing (init blank_view)) = Some 2"
  by (simp add: demo_playing_def reader_defs demo_book_def loading_payload_def)

section \<open>Rendering a book without chapters\<close>

text \<open>
  C2. For every render payload whose \<^verbatim>\<open>totalChapters\<close> is 0 and whose state is not
  \<^verbatim>\<open>'loading'\<close>, the reader writes the chapter text "No chapters found" and disables the
  four transport controls: play, stop, rewind and forward.
\<close>

theorem render_no_chapters:
  assumes "totalChapters p = 0" and "state p \<noteq> ''loading''"
  shows "chapterText (page (render p r)) = ''No chapters found''
       \<and> playDisabled (page (render p r))
       \<and> stopDisabled (page (render p r))
       \<and> rewindDisabled (page (render p r))
       \<and> forwardDisabled (page (render p r))"
  using assms
  by (simp add: render_def emit_def render_view_def render_chapter_def ready_def Let_def)

theorem render_no_chapters_witness:
  "totalChapters \<lparr>state = ''stopped'', chapIdx = 0, sentIdx = 0, totalChapters = 0,
       chapterTitle = [], currentSentence = []\<rparr> = 0
   \<and> state \<lparr>state = ''stopped'', chapIdx = 0, sentIdx = 0, totalChapters = 0,
       chapterTitle = [], currentSentence = []\<rparr> \<noteq> ''loading''
   \<and> chapterText (page (render \<lparr>state = ''stopped'', chapIdx = 0, sentIdx = 0,
       totalChapters = 0, chapterTitle = [], currentSentence = []\<rparr> (init blank_view)))
       = ''No chapters found''
   \<and> playDisabled (page (render \<lparr>state = ''stopped'', chapIdx = 0, sentIdx = 0,
       totalChapters = 0, chapterTitle = [], currentSentence = []\<rparr> (init blank_view)))"
  using render_no_chapters [of "\<lparr>state = ''stopped'', chapIdx = 0, sentIdx = 0,
       totalChapters = 0, chapterTitle = [], currentSentence = []\<rparr>" "init blank_view"]
  by simp

section \<open>One engine at a time\<close>

lemma live_from_simps [simp]:
  "live_from es [] = es"
  "live_from es (ev # t) = live_from (live_step es ev) t"
  "live_from es (t @ u) = live_from (live_from es t) u"
  by (simp_all add: live_from_def)

lemma live_from_renders [simp]: "live_from es (map EvRender ps) = es"
  by (induction ps) simp_all

lemma bounded_from_Nil [simp]: "bounded_from es [] \<longleftrightarrow> length es \<le> 1"
  by (simp add: bounded_from_def)

lemma bounded_from_length: "bounded_from es t \<Longrightarrow> length es \<le> 1"
  unfolding bounded_from_def by (metis Nil_prefix live_from_simps(1))

lemma bounded_from_live: "bounded_from es t \<Longrightarrow> length (live_from es t) \<le> 1"
  unfolding bounded_from_def by (metis prefix_order.order_refl)

lemma bounded_from_Cons [simp]:
  "bounded_from es (ev # t) \<longleftrightarrow> length es \<le> 1 \<and> bounded_from (live_step es ev) t"
  by (auto simp: bounded_from_def prefix_Cons)

lemma bounded_from_append [simp]:
  "bounded_from es (t @ u) \<longleftrightarrow> bounded_from es t \<and> bounded_from (live_from es t) u"
  by (induction t arbitrary: es) (auto dest: bounded_from_length)

lemma bounded_from_renders [simp]: "bounded_from es (map EvRender ps) \<longleftrightarrow> length es \<le> 1"
  by (induction ps) auto


lemma one_engine_destroyEngine:
  "one_engine r \<Longrightarrow>
     bounded_from [] (trace (destroyEngine ps r))
     \<and> live (trace (destroyEngine ps r)) = []
     \<and> engine (destroyEngine ps r) = None"
  by (auto simp: one_engine_def live_def destroyEngine_def call_engine_def emit_def
      split: option.splits)

lemma one_engine_render: "one_engine r \<Longrightarrow> one_engine (render p r)"
  by (cases "engine r") (auto simp: one_engine_def live_def render_def emit_def)

lemma one_engine_call: "m \<noteq> Destroy \<Longrightarrow> one_engine r \<Longrightarrow> one_engine (call_engine m ps r)"
  by (cases m) (auto simp: one_engine_def live_def call_engine_def emit_def split: option.splits)

lemma one_engine_openReader: "one_engine r \<Longrightarrow> one_engine (openReader s b ps pn ps' r)"
  using one_engine_destroyEngine [of r ps]
  by (auto simp: one_engine_def live_def openReader_def releaseCover_def show_cover_def
      show_reader_def listen_keys_def new_engine_def render_def call_engine_def emit_def Let_def
      split: option.splits)

lemma one_engine_closeReader:
  "one_engine r \<Longrightarrow> one_engine (closeReader ps ps' r) \<and> engine (closeReader ps ps' r) = None"
  using one_engine_destroyEngine [OF one_engine_call [of Stop r ps], of ps']
  by (auto simp: one_engine_def live_def closeReader_def releaseCover_def hide_reader_def
      abort_keys_def emit_def Let_def split: option.splits)

lemma one_engine_emit: "one_engine r \<Longrightarrow> one_engine (emit EvPreventDefault r)"
  by (auto simp: one_engine_def live_def emit_def dest: bounded_from_live)

lemma one_engine_step: "one_engine r \<Longrightarrow> one_engine (step r i)"
proof (cases i)
  case (KeyDown key c ps ps')
  assume "one_engine r"
  then show ?thesis
    using KeyDown one_engine_closeReader [of r ps ps']
    by (auto simp: onKeyDown_def Let_def one_engine_call one_engine_emit)
next
  case (OpenSettled outcome)
  assume "one_engine r"
  then show ?thesis
    using OpenSettled by (cases outcome) (simp_all add: open_settled_def one_engine_def)
qed (auto simp: one_engine_openReader one_engine_closeReader one_engine_render one_engine_call
       click_play_def click_stop_def click_rewind_def click_forward_def split: option.splits)

lemma one_engine_run: "one_engine r \<Longrightarrow> one_engine (run ins r)"
  unfolding run_def by (induction ins arbitrary: r) (simp_all add: one_engine_step)

lemma one_engine_init: "one_engine (init v)"
  by (simp add: one_engine_def live_def init_def)

text \<open>
  C5. At every point of the reader module's lifetime at most one \<^verbatim>\<open>TTSEngine\<close> instance is
  live. Whatever inputs the module has received since it was loaded, after every prefix
  of the calls it has made at most one engine is constructed and not destroyed; the live
  engine, if there is one, is the one the variable \<^verbatim>\<open>engine\<close> holds; and
  \<^verbatim>\<open>closeReader\<close> leaves \<^verbatim>\<open>engine\<close> null with no engine live.
\<close>

theorem one_live_engine:
  "(prefix t (trace (run ins (init v))) \<longrightarrow> length (live t) \<le> 1)
   \<and> live (trace (run ins (init v))) =
       (case engine (run ins (init v)) of None \<Rightarrow> [] | Some e \<Rightarrow> [e])
   \<and> engine (closeReader ps ps' (run ins (init v))) = None
   \<and> live (trace (closeReader ps ps' (run ins (init v)))) = []"
proof -
  have inv: "one_engine (run ins (init v))"
    by (rule one_engine_run [OF one_engine_init])
  have closed: "one_engine (closeReader ps ps' (run ins (init v)))"
    "engine (closeReader ps ps' (run ins (init v))) = None"
    using one_engine_closeReader [OF inv] by simp_all
  from inv have "prefix t (trace (run ins (init v))) \<longrightarrow> length (live t) \<le> 1"
    by (simp add: one_engine_def bounded_from_def live_def)
  moreover from inv have "live (trace (run ins (init v))) =
       (case engine (run ins (init v)) of None \<Rightarrow> [] | Some e \<Rightarrow> [e])"
    by (simp add: one_engine_def)
  moreover from closed have "live (trace (closeReader ps ps' (run ins (init v)))) = []"
    by (simp add: one_engine_def)
  ultimately show ?thesis using closed(2) by simp
qed

theorem one_live_engine_witness:
  "prefix [EvCreateObjectURL 3 0, EvRender loading_payload, EvAddKeyListener 1, EvNew 2]
     (trace (run demo_reopen (init blank_view)))
   \<and> length (live [EvCreateObjectURL 3 0, EvRender loading_payload, EvAddKeyListener 1,
        EvNew 2]) \<le> 1
   \<and> live (trace (run demo_reopen (init blank_view))) = [5]
   \<and> engine (closeReader [] [] (run demo_reopen (init blank_view))) = None"
  using one_live_engine [of "[EvCreateObjectURL 3 0, EvRender loading_payload,
      EvAddKeyListener 1, EvNew 2]" demo_reopen blank_view "[]" "[]"]
  by (simp add: trace_demo_reopen live_def)

section \<open>Closing the reader\<close>

lemma calls_on_append [simp]: "calls_on e (t @ u) = calls_on e t @ calls_on e u"
  by (induction e t rule: calls_on.induct) simp_all

lemma calls_on_renders [simp]: "calls_on e (map EvRender ps) = []"
  by (induction ps) simp_all

lemma trace_closeReader:
  "engine r = Some e \<Longrightarrow>
   trace (closeReader ps ps' r) =
     trace r @ EvCall e Stop # map EvRender ps @ EvCall e Destroy # map EvRender ps'
       @ (case coverUrl r of None \<Rightarrow> [] | Some u \<Rightarrow> [EvRevokeObjectURL u])
       @ (case kbAbort r of None \<Rightarrow> [] | Some c \<Rightarrow> [EvAbort c])"
  by (auto simp: closeReader_def hide_reader_def abort_keys_def releaseCover_def
      destroyEngine_def call_engine_def emit_def Let_def split: option.splits)

text \<open>
  C7. For every invocation of \<^verbatim>\<open>closeReader\<close> while an engine is live,
  \<^verbatim>\<open>engine.stop()\<close> is invoked before \<^verbatim>\<open>engine.destroy()\<close>: the calls
  \<^verbatim>\<open>closeReader\<close> makes on the engine are \<^verbatim>\<open>stop\<close>, then \<^verbatim>\<open>destroy\<close>, and nothing else, and
  the engine is dropped. So, for an engine whose \<^verbatim>\<open>stop\<close> persists the current cursor and
  whose \<^verbatim>\<open>destroy\<close> leaves the persisted position alone (the two sentences of the spec
  about the engine, here the hypotheses on \<open>sem\<close>), the position persisted when
  \<^verbatim>\<open>closeReader\<close> returns is the cursor the engine had when it was called.
\<close>

theorem close_stops_before_destroy:
  assumes live: "engine r = Some e"
    and stop: "\<forall>s. persisted (sem Stop s) = Some (cursor s)"
    and destroy: "\<forall>s. persisted (sem Destroy s) = persisted s"
  shows "calls_on e (added r (closeReader ps ps' r)) = [Stop, Destroy]
       \<and> engine (closeReader ps ps' r) = None
       \<and> persisted (apply_calls sem (calls_on e (added r (closeReader ps ps' r))) s)
           = Some (cursor s)"
proof -
  have calls: "calls_on e (added r (closeReader ps ps' r)) = [Stop, Destroy]"
    using live by (simp add: trace_closeReader added_def split: option.splits)
  have "engine (closeReader ps ps' r) = None"
    by (simp add: closeReader_def hide_reader_def abort_keys_def releaseCover_def
        destroyEngine_def emit_def Let_def split: option.splits)
  moreover have "persisted (apply_calls sem [Stop, Destroy] s) = Some (cursor s)"
    using stop destroy by (simp add: apply_calls_def)
  ultimately show ?thesis using calls by simp
qed

theorem close_stops_before_destroy_witness:
  "engine (run demo_playing (init blank_view)) = Some 2
   \<and> (\<forall>s :: (nat \<times> nat) \<times> (nat \<times> nat) option.
        snd ((\<lambda>m (c, p). if m = Stop then (c, Some c) else (c, p)) Stop s) = Some (fst s))
   \<and> (\<forall>s :: (nat \<times> nat) \<times> (nat \<times> nat) option.
        snd ((\<lambda>m (c, p). if m = Stop then (c, Some c) else (c, p)) Destroy s) = snd s)
   \<and> calls_on 2 (added (run demo_playing (init blank_view))
         (closeReader [] [] (run demo_playing (init blank_view)))) = [Stop, Destroy]
   \<and> snd (apply_calls (\<lambda>m (c, p). if m = Stop then (c, Some c) else (c, p)) [Stop, Destroy]
         ((0 :: nat, 3 :: nat), None)) = Some (0, 3)"
proof -
  let ?sem = "\<lambda>m (c :: nat \<times> nat, p :: (nat \<times> nat) option).
                if m = Stop then (c, Some c) else (c, p)"
  have a: "engine (run demo_playing (init blank_view)) = Some 2"
    by (rule engine_demo_playing)
  have b: "\<forall>s. snd (?sem Stop s) = Some (fst s)" by (simp add: split_def)
  have c: "\<forall>s. snd (?sem Destroy s) = snd s" by (simp add: split_def)
  show ?thesis
    using a b c close_stops_before_destroy [OF a b c, of "[]" "[]" "((0, 3), None)"]
    by (simp add: apply_calls_def)
qed

section \<open>Opening a book\<close>

lemma precedes_append: "b \<notin> set t \<Longrightarrow> precedes a b (t @ u) \<longleftrightarrow> a \<in> set t \<or> precedes a b u"
  by (induction t) auto

lemma page_renders: "page (renders ps r) = foldl (\<lambda>v p. render_view p v) (page r) ps"
  by (induction ps arbitrary: r) (simp_all add: render_def emit_def)

lemma controls_after_renders:
  "ps \<noteq> [] \<Longrightarrow>
     playDisabled (foldl (\<lambda>v p. render_view p v) v ps) = (\<not> ready (last ps))
   \<and> stopDisabled (foldl (\<lambda>v p. render_view p v) v ps)
       = (\<not> ready (last ps) \<or> state (last ps) = ''stopped'')
   \<and> rewindDisabled (foldl (\<lambda>v p. render_view p v) v ps) = (\<not> ready (last ps))
   \<and> forwardDisabled (foldl (\<lambda>v p. render_view p v) v ps) = (\<not> ready (last ps))
   \<and> dataState (foldl (\<lambda>v p. render_view p v) v ps) = state (last ps)"
  by (induction ps rule: rev_induct) (simp_all add: render_view_def Let_def)

lemma page_openReader:
  "page (run (map Notify qs) (openReader True b ps pn ps' r)) =
     foldl (\<lambda>v p. render_view p v)
       (page (show_reader (show_cover b ((releaseCover (destroyEngine ps r))
          \<lparr>page := (page (releaseCover (destroyEngine ps r)))\<lparr>bookTitleText := title b\<rparr>\<rparr>))))
       (loading_payload # pn @ ps' @ qs)"
  by (simp add: run_Notify openReader_def Let_def call_engine_def new_engine_def listen_keys_def
      emit_def render_def page_renders)

text \<open>
  C8 (as amended). For every invocation of \<^verbatim>\<open>openReader\<close> in a browser that has
  \<^verbatim>\<open>speechSynthesis\<close>: a new engine is constructed and \<^verbatim>\<open>open(book.id)\<close> is called on it, and
  no such call happens before \<^verbatim>\<open>_render\<close> has been called with the loading payload, whose
  state is \<^verbatim>\<open>'loading'\<close> and whose cursor is (0,0). If \<^verbatim>\<open>engine.open\<close> then rejects with
  message \<open>msg\<close>, after the notifications \<open>pn\<close> (inside the constructor), \<open>ps'\<close> (inside
  the call) and \<open>qs\<close> (later) of the engine, the reader shows "Failed to load book" and \<open>msg\<close>; the \<^verbatim>\<open>catch\<close> block renders
  nothing, so the four transport controls are disabled provided the engine's last
  notification, if it sent any, was not a ready one.
\<close>

theorem open_shows_loading_first:
  "(\<exists>e. engine (openReader True b ps pn ps' r) = Some e
        \<and> EvCall e (Open (book_id b)) \<in> set (added r (openReader True b ps pn ps' r))
        \<and> precedes (EvRender loading_payload) (EvCall e (Open (book_id b)))
             (added r (openReader True b ps pn ps' r)))
   \<and> state loading_payload = ''loading'' \<and> chapIdx loading_payload = 0
   \<and> sentIdx loading_payload = 0
   \<and> chapterText (page (open_settled (Some msg)
        (run (map Notify qs) (openReader True b ps pn ps' r)))) = ''Failed to load book''
   \<and> sentenceText (page (open_settled (Some msg)
        (run (map Notify qs) (openReader True b ps pn ps' r)))) = msg
   \<and> (pn @ ps' @ qs = [] \<or> \<not> ready (last (pn @ ps' @ qs)) \<longrightarrow>
        playDisabled (page (open_settled (Some msg)
          (run (map Notify qs) (openReader True b ps pn ps' r))))
      \<and> stopDisabled (page (open_settled (Some msg)
          (run (map Notify qs) (openReader True b ps pn ps' r))))
      \<and> rewindDisabled (page (open_settled (Some msg)
          (run (map Notify qs) (openReader True b ps pn ps' r))))
      \<and> forwardDisabled (page (open_settled (Some msg)
          (run (map Notify qs) (openReader True b ps pn ps' r)))))"
proof -
  let ?r1 = "openReader True b ps pn ps' r"
  have "\<exists>pre k. trace ?r1 = trace r @ pre @ EvRender loading_payload # EvAddKeyListener k
                # EvNew (Suc k) # map EvRender pn @ EvCall (Suc k) (Open (book_id b))
                # map EvRender ps'
              \<and> engine ?r1 = Some (Suc k)
              \<and> (\<forall>e. EvCall e (Open (book_id b)) \<notin> set pre)"
    by (cases "engine r"; cases "coverUrl r"; cases "coverBlob b")
       (auto simp: openReader_def Let_def call_engine_def new_engine_def listen_keys_def
          emit_def render_def show_reader_def show_cover_def releaseCover_def
          destroyEngine_def)
  then obtain pre k where
    t: "trace ?r1 = trace r @ pre @ EvRender loading_payload # EvAddKeyListener k
                # EvNew (Suc k) # map EvRender pn @ EvCall (Suc k) (Open (book_id b))
                # map EvRender ps'"
    and e: "engine ?r1 = Some (Suc k)"
    and pre: "\<forall>e. EvCall e (Open (book_id b)) \<notin> set pre" by blast
  have first: "\<exists>e. engine ?r1 = Some e
            \<and> EvCall e (Open (book_id b)) \<in> set (added r ?r1)
            \<and> precedes (EvRender loading_payload) (EvCall e (Open (book_id b))) (added r ?r1)"
    using e pre by (simp add: t added_def precedes_append)
  have payload: "state loading_payload = ''loading'' \<and> chapIdx loading_payload = 0
       \<and> sentIdx loading_payload = 0"
    by (simp add: loading_payload_def)
  let ?r2 = "run (map Notify qs) ?r1"
  have controls: "playDisabled (page ?r2) \<and> stopDisabled (page ?r2)
      \<and> rewindDisabled (page ?r2) \<and> forwardDisabled (page ?r2)"
    if quiet: "pn @ ps' @ qs = [] \<or> \<not> ready (last (pn @ ps' @ qs))"
  proof -
    have "\<not> ready (last (loading_payload # pn @ ps' @ qs))"
    proof (cases "pn @ ps' @ qs = []")
      case True
      then show ?thesis by (simp add: ready_def loading_payload_def)
    next
      case False
      with quiet have "\<not> ready (last (pn @ ps' @ qs))" by blast
      with False show ?thesis by (metis last_ConsR)
    qed
    then show ?thesis
      unfolding page_openReader
      using controls_after_renders [of "loading_payload # pn @ ps' @ qs"] by simp
  qed
  have texts: "chapterText (page (open_settled (Some msg) ?r2)) = ''Failed to load book''
      \<and> sentenceText (page (open_settled (Some msg) ?r2)) = msg"
    by (simp add: open_settled_def)
  have same: "playDisabled (page (open_settled (Some msg) ?r2)) = playDisabled (page ?r2)"
    "stopDisabled (page (open_settled (Some msg) ?r2)) = stopDisabled (page ?r2)"
    "rewindDisabled (page (open_settled (Some msg) ?r2)) = rewindDisabled (page ?r2)"
    "forwardDisabled (page (open_settled (Some msg) ?r2)) = forwardDisabled (page ?r2)"
    by (simp_all add: open_settled_def)
  show ?thesis using first payload texts controls same by blast
qed

theorem open_shows_loading_first_witness:
  "([] :: payload list) @ [] @ [loading_payload] \<noteq> []
   \<and> \<not> ready (last ([] @ [] @ [loading_payload]))
   \<and> engine (openReader True demo_book [] [] [] (init blank_view)) = Some 2
   \<and> added (init blank_view) (openReader True demo_book [] [] [] (init blank_view)) =
       [EvCreateObjectURL 3 0, EvRender loading_payload, EvAddKeyListener 1, EvNew 2,
        EvCall 2 (Open 7)]
   \<and> precedes (EvRender loading_payload) (EvCall 2 (Open 7))
       (added (init blank_view) (openReader True demo_book [] [] [] (init blank_view)))
   \<and> chapterText (page (open_settled (Some ''boom'')
        (run (map Notify [loading_payload]) (openReader True demo_book [] [] [] (init blank_view)))))
       = ''Failed to load book''
   \<and> playDisabled (page (open_settled (Some ''boom'')
        (run (map Notify [loading_payload]) (openReader True demo_book [] [] [] (init blank_view)))))"
proof -
  have q: "([] :: payload list) @ [] @ [loading_payload] = []
           \<or> \<not> ready (last ([] @ [] @ [loading_payload]))"
    by (simp add: ready_def loading_payload_def)
  have tr: "added (init blank_view) (openReader True demo_book [] [] [] (init blank_view)) =
       [EvCreateObjectURL 3 0, EvRender loading_payload, EvAddKeyListener 1, EvNew 2,
        EvCall 2 (Open 7)]"
    by (simp add: added_def reader_defs demo_book_def)
  have en: "engine (openReader True demo_book [] [] [] (init blank_view)) = Some 2"
    by (simp add: reader_defs demo_book_def)
  show ?thesis
    using q open_shows_loading_first [of demo_book "[]" "[]" "[]" "init blank_view" "''boom''"
        "[loading_payload]"]
    by (simp add: tr en ready_def loading_payload_def)
qed

theorem open_unsupported_counterexample:
  "trace (openReader False demo_book [] [] [] (init blank_view)) =
     [EvAlert ''Text-to-speech is not supported in this browser.'']
   \<and> engine (openReader False demo_book [] [] [] (init blank_view)) = None
   \<and> dataState (page (openReader False demo_book [] [] [] (init blank_view))) \<noteq> ''loading''
   \<and> readerHidden (page (openReader False demo_book [] [] [] (init blank_view)))"
  by (simp add: reader_defs blank_view_def)

section \<open>The play control\<close>

lemma last_rendered_from_simps [simp]:
  "last_rendered_from s [] = s"
  "last_rendered_from s (ev # t) = last_rendered_from (last_step s ev) t"
  "last_rendered_from s (t @ u) = last_rendered_from (last_rendered_from s t) u"
  by (simp_all add: last_rendered_from_def)

lemma last_rendered_from_renders [simp]:
  "last_rendered_from s (map EvRender ps) = (if ps = [] then s else Some (state (last ps)))"
  by (induction ps arbitrary: s) simp_all

lemma shown_render: "shown (render p r)"
  by (simp add: shown_def last_rendered_def render_def emit_def)

lemma shown_call: "shown r \<Longrightarrow> shown (call_engine m ps r)"
  by (auto simp: shown_def last_rendered_def call_engine_def emit_def split: option.splits)

lemma shown_emit: "shown r \<Longrightarrow> shown (emit EvPreventDefault r)"
  by (auto simp: shown_def last_rendered_def emit_def)

lemma shown_openReader: "shown (openReader s b ps pn ps' r)"
  by (auto simp: shown_def last_rendered_def openReader_def destroyEngine_def releaseCover_def show_cover_def
      show_reader_def listen_keys_def new_engine_def render_def call_engine_def emit_def Let_def
      split: option.splits)

lemma shown_closeReader: "shown (closeReader ps ps' r)"
  by (auto simp: shown_def closeReader_def releaseCover_def hide_reader_def destroyEngine_def
      abort_keys_def emit_def Let_def split: option.splits)

lemma shown_step: "shown r \<Longrightarrow> shown (step r i)"
proof (cases i)
  case (KeyDown key c ps ps')
  assume "shown r"
  then show ?thesis
    using KeyDown by (auto simp: onKeyDown_def Let_def shown_call shown_emit shown_closeReader)
next
  case (OpenSettled outcome)
  assume "shown r"
  then show ?thesis
    using OpenSettled by (cases outcome) (simp_all add: open_settled_def shown_def)
qed (auto simp: shown_openReader shown_closeReader shown_render shown_call
       click_play_def click_stop_def click_rewind_def click_forward_def split: option.splits)

lemma shown_run: "shown r \<Longrightarrow> shown (run ins r)"
  unfolding run_def by (induction ins arbitrary: r) (simp_all add: shown_step)

lemma shown_init: "shown (init v)"
  by (simp add: shown_def init_def)

text \<open>
  C9 (as amended). For every activation of the play control with a live engine, by a click
  on the play button or by a Space keydown whose target is not inside an input, textarea,
  select or button: \<^verbatim>\<open>engine.pause()\<close> is invoked if the last rendered state is
  \<^verbatim>\<open>'playing'\<close>, and \<^verbatim>\<open>engine.play()\<close> in every other last rendered state; it is the only
  call made on the engine (the notifications \<open>ps\<close> are the engine's answer). A keydown whose
  target is inside such an element does nothing.
\<close>

theorem play_control:
  assumes "engine (run ins (init v)) = Some e"
  shows "added (run ins (init v)) (click_play ps (run ins (init v))) =
           EvCall e (if last_rendered (trace (run ins (init v))) = Some ''playing''
                     then Pause else Play) # map EvRender ps
       \<and> added (run ins (init v)) (onKeyDown '' '' False ps ps' (run ins (init v))) =
           EvPreventDefault #
           EvCall e (if last_rendered (trace (run ins (init v))) = Some ''playing''
                     then Pause else Play) # map EvRender ps
       \<and> onKeyDown key True ps ps' (run ins (init v)) = run ins (init v)"
proof -
  have "shown (run ins (init v))"
    by (rule shown_run [OF shown_init])
  with assms have "last_rendered (trace (run ins (init v))) = Some (lastState (run ins (init v)))"
    by (simp add: shown_def)
  with assms show ?thesis
    by (simp add: click_play_def onKeyDown_def call_engine_def emit_def Let_def)
qed

theorem play_control_witness:
  "engine (run demo_playing (init blank_view)) = Some 2
   \<and> last_rendered (trace (run demo_playing (init blank_view))) = Some ''playing''
   \<and> added (run demo_playing (init blank_view))
        (click_play [] (run demo_playing (init blank_view))) = [EvCall 2 Pause]
   \<and> added (run demo_playing (init blank_view))
        (onKeyDown '' '' False [] [] (run demo_playing (init blank_view))) =
          [EvPreventDefault, EvCall 2 Pause]"
proof -
  have lr: "last_rendered (trace (run demo_playing (init blank_view))) = Some ''playing''"
    by (simp add: trace_demo_playing last_rendered_def playing_payload_def)
  show ?thesis
    using engine_demo_playing lr
      play_control [OF engine_demo_playing, of "[]" "[]" "'' ''"]
    by simp
qed

theorem space_in_control_counterexample:
  "engine (run demo_playing (init blank_view)) = Some 2
   \<and> last_rendered (trace (run demo_playing (init blank_view))) = Some ''playing''
   \<and> added (run demo_playing (init blank_view))
        (step (run demo_playing (init blank_view)) (KeyDown '' '' True [] [])) = []"
proof -
  have lr: "last_rendered (trace (run demo_playing (init blank_view))) = Some ''playing''"
    by (simp add: trace_demo_playing last_rendered_def playing_payload_def)
  show ?thesis
    using engine_demo_playing lr by (simp add: onKeyDown_def added_def)
qed

section \<open>The shape of a render notification\<close>

lemma str_prop_Some [simp]: "str_prop obj k = Some s \<longleftrightarrow> obj k = Some (JStr s)"
  by (auto simp: str_prop_def split: option.splits jsval.splits)

lemma num_prop_Some [simp]: "num_prop obj k = Some n \<longleftrightarrow> obj k = Some (JNum n)"
  by (auto simp: num_prop_def split: option.splits jsval.splits)

lemma destructure_object_of: "destructure (object_of p) = Some p"
  by (simp add: destructure_def object_of_def str_prop_def num_prop_def)

lemma dom_object_of: "dom (object_of p) = set payload_fields"
  by (auto simp: object_of_def payload_fields_def)

lemma destructure_agree:
  assumes "map obj payload_fields = map obj' payload_fields"
  shows "destructure obj = destructure obj'"
proof -
  from assms have same: "obj ''state'' = obj' ''state''" "obj ''chapIdx'' = obj' ''chapIdx''"
    "obj ''sentIdx'' = obj' ''sentIdx''" "obj ''totalChapters'' = obj' ''totalChapters''"
    "obj ''chapterTitle'' = obj' ''chapterTitle''"
    "obj ''currentSentence'' = obj' ''currentSentence''"
    by (simp_all add: payload_fields_def)
  show ?thesis
    unfolding destructure_def str_prop_def num_prop_def same ..
qed

lemma page_differs:
  "chapterText v \<noteq> chapterText v' \<or> sentenceText v \<noteq> sentenceText v'
   \<or> labelText v \<noteq> labelText v' \<or> dataState v \<noteq> dataState v' \<Longrightarrow> v \<noteq> (v' :: view)"
  by auto

text \<open>
  C1 (as amended). The reader's render function consumes the six properties named
  \<^verbatim>\<open>state\<close>, \<^verbatim>\<open>chapIdx\<close>, \<^verbatim>\<open>sentIdx\<close>, \<^verbatim>\<open>totalChapters\<close>, \<^verbatim>\<open>chapterTitle\<close> and
  \<^verbatim>\<open>currentSentence\<close> of a notification, and no other property. Called on an object with
  these six properties it does what the machine does on the notification \<open>Notify p\<close>; the
  object \<^verbatim>\<open>openReader\<close> itself passes is of this shape; two objects that agree on the six
  names are rendered alike, whatever else they carry; of the six, \<^verbatim>\<open>sentIdx\<close> is bound and
  never used (the view and \<^verbatim>\<open>lastState\<close> do not depend on it), and each of the other five
  shows in the view.
\<close>

theorem render_payload_shape:
  "render_object (object_of p) r = Some (step r (Notify p))
   \<and> dom (object_of p) = set payload_fields
   \<and> distinct payload_fields \<and> length payload_fields = 6
   \<and> loading_object = object_of loading_payload
   \<and> render_object loading_object r = Some (render loading_payload r)
   \<and> (map obj payload_fields = map obj' payload_fields \<longrightarrow>
        render_object obj r = render_object obj' r)
   \<and> page (render (p\<lparr>sentIdx := i\<rparr>) r) = page (render p r)
   \<and> lastState (render (p\<lparr>sentIdx := i\<rparr>) r) = lastState (render p r)
   \<and> page (render (playing_payload\<lparr>state := ''paused''\<rparr>) r) \<noteq> page (render playing_payload r)
   \<and> page (render (playing_payload\<lparr>chapIdx := 1\<rparr>) r) \<noteq> page (render playing_payload r)
   \<and> page (render (playing_payload\<lparr>totalChapters := 3\<rparr>) r) \<noteq> page (render playing_payload r)
   \<and> page (render (playing_payload\<lparr>chapterTitle := ''Volume II''\<rparr>) r)
       \<noteq> page (render playing_payload r)
   \<and> page (render (playing_payload\<lparr>currentSentence := ''He was not.''\<rparr>) r)
       \<noteq> page (render playing_payload r)"
proof -
  have whole: "render_object (object_of p) r = Some (step r (Notify p))"
    by (simp add: render_object_def destructure_object_of)
  have names: "dom (object_of p) = set payload_fields \<and> distinct payload_fields
      \<and> length payload_fields = 6"
    by (simp add: dom_object_of) (simp add: payload_fields_def)
  have literal: "loading_object = object_of loading_payload"
    by (simp add: loading_object_def object_of_def loading_payload_def)
  have own: "render_object loading_object r = Some (render loading_payload r)"
    unfolding literal by (simp add: render_object_def destructure_object_of)
  have only: "map obj payload_fields = map obj' payload_fields \<longrightarrow>
        render_object obj r = render_object obj' r"
    using destructure_agree [of obj obj'] unfolding render_object_def by metis
  have unused: "page (render (p\<lparr>sentIdx := i\<rparr>) r) = page (render p r)
      \<and> lastState (render (p\<lparr>sentIdx := i\<rparr>) r) = lastState (render p r)"
    by (simp add: render_def emit_def render_view_def render_chapter_def render_sentence_def
        ready_def Let_def)
  have used:
    "page (render (playing_payload\<lparr>state := ''paused''\<rparr>) r) \<noteq> page (render playing_payload r)"
    "page (render (playing_payload\<lparr>chapIdx := 1\<rparr>) r) \<noteq> page (render playing_payload r)"
    "page (render (playing_payload\<lparr>totalChapters := 3\<rparr>) r) \<noteq> page (render playing_payload r)"
    "page (render (playing_payload\<lparr>chapterTitle := ''Volume II''\<rparr>) r)
       \<noteq> page (render playing_payload r)"
    "page (render (playing_payload\<lparr>currentSentence := ''He was not.''\<rparr>) r)
       \<noteq> page (render playing_payload r)"
    by (rule page_differs,
        simp add: render_def emit_def render_view_def render_chapter_def render_sentence_def
          playing_payload_def Let_def)+
  show ?thesis using whole names literal own only unused used by blast
qed

theorem render_payload_shape_witness:
  "map (object_of playing_payload) payload_fields
     = map ((object_of playing_payload)(''chapterIndex'' \<mapsto> JNum 9)) payload_fields
   \<and> render_object ((object_of playing_payload)(''chapterIndex'' \<mapsto> JNum 9)) (init blank_view)
       = Some (step (init blank_view) (Notify playing_payload))
   \<and> dom (object_of playing_payload) = set payload_fields"
proof -
  have a: "map (object_of playing_payload) payload_fields
     = map ((object_of playing_payload)(''chapterIndex'' \<mapsto> JNum 9)) payload_fields"
    by (simp add: payload_fields_def)
  note shape = render_payload_shape [of playing_payload "init blank_view"
      "object_of playing_payload" "(object_of playing_payload)(''chapterIndex'' \<mapsto> JNum 9)"]
  from shape a have alike: "render_object (object_of playing_payload) (init blank_view)
      = render_object ((object_of playing_payload)(''chapterIndex'' \<mapsto> JNum 9)) (init blank_view)"
    by blast
  from shape have whole: "render_object (object_of playing_payload) (init blank_view)
      = Some (step (init blank_view) (Notify playing_payload))"
    by blast
  from shape have names: "dom (object_of playing_payload) = set payload_fields"
    by blast
  show ?thesis
  proof (intro conjI)
    show "map (object_of playing_payload) payload_fields
     = map ((object_of playing_payload)(''chapterIndex'' \<mapsto> JNum 9)) payload_fields"
      by (rule a)
    show "render_object ((object_of playing_payload)(''chapterIndex'' \<mapsto> JNum 9)) (init blank_view)
       = Some (step (init blank_view) (Notify playing_payload))"
      by (simp only: alike [symmetric] whole)
    show "dom (object_of playing_payload) = set payload_fields"
      by (rule names)
  qed
qed

theorem spec_payload_counterexample:
  "dom spec_object = {''state'', ''chapterIndex'', ''sentenceIndex'', ''totalChapters'',
                      ''chapterTitle'', ''currentSentenceText''}
   \<and> destructure spec_object = None
   \<and> render_object spec_object (init blank_view) = None
   \<and> spec_object ''chapIdx'' = None \<and> spec_object ''sentIdx'' = None
   \<and> spec_object ''currentSentence'' = None"
  by (auto simp: spec_object_def render_object_def destructure_def str_prop_def num_prop_def)

section \<open>Chapters in spine order\<close>

lemma new_chapter_simps [simp]:
  "spineIndex (new_chapter n b p) = fst p"
  "bookId (new_chapter n b p) = b"
  "chapter_title (new_chapter n b p) = fst (snd p)"
  "href (new_chapter n b p) = snd (snd p)"
  by (simp_all add: new_chapter_def split_def)

lemma spine_new [simp]:
  "map (spineIndex \<circ> new_chapter n b) (enumerate 0 cs) = [0..<length cs]"
proof -
  have "spineIndex \<circ> new_chapter n b = fst" by (simp add: fun_eq_iff)
  then show ?thesis by simp
qed

lemma filter_new [simp]:
  "filter (\<lambda>c. bookId c = b') (map (new_chapter n b) xs) =
     (if b' = b then map (new_chapter n b) xs else [])"
  by (induction xs) auto

lemma spine_ok_import: "spine_ok d \<Longrightarrow> spine_ok (importBook bk cs d)"
proof -
  assume ok: "spine_ok d"
  then have none: "of_book (next_book d) d = []"
    by (auto simp: spine_ok_def of_book_def filter_empty_conv)
  show ?thesis
    unfolding spine_ok_def
  proof (intro conjI allI ballI)
    fix c assume "c \<in> set (chapters (importBook bk cs d))"
    with ok show "bookId c < next_book (importBook bk cs d)"
      by (auto simp: importBook_def putChapters_def books_add_def spine_ok_def)
  next
    fix b
    show "distinct (map spineIndex (of_book b (importBook bk cs d)))"
    proof (cases "b = next_book d")
      case True
      then show ?thesis using none
        by (simp add: importBook_def putChapters_def books_add_def of_book_def)
    next
      case False
      then show ?thesis using ok
        by (simp add: importBook_def putChapters_def books_add_def of_book_def spine_ok_def)
    qed
  qed
qed

lemma spine_ok_delete_chapters: "spine_ok d \<Longrightarrow> spine_ok (chapters_delete_where_bookId k d)"
proof -
  assume ok: "spine_ok d"
  have "of_book b (chapters_delete_where_bookId k d) = filter (\<lambda>c. bookId c \<noteq> k) (of_book b d)"
    for b
    by (simp add: of_book_def chapters_delete_where_bookId_def conj_commute)
  with ok show ?thesis
    by (auto simp: spine_ok_def chapters_delete_where_bookId_def distinct_map_filter)
qed

lemma spine_ok_delete_book: "spine_ok d \<Longrightarrow> spine_ok (books_delete k d)"
  by (simp add: spine_ok_def of_book_def books_delete_def)

lemma spine_ok_step: "spine_ok d \<Longrightarrow> spine_ok (db_step d opn)"
  by (cases opn) (simp_all add: spine_ok_import spine_ok_delete_chapters spine_ok_delete_book)

lemma spine_ok_foldl: "spine_ok d \<Longrightarrow> spine_ok (foldl db_step d ops)"
  by (induction ops arbitrary: d) (simp_all add: spine_ok_step)

lemma spine_ok_run: "spine_ok (db_run ops)"
  unfolding db_run_def by (rule spine_ok_foldl) (simp add: spine_ok_def empty_db_def of_book_def)

lemma sorted_getChapters:
  assumes "distinct (map spineIndex (of_book b d))"
  shows "sorted_wrt (<) (map spineIndex (getChapters b d))"
proof -
  have "distinct (map spineIndex (getChapters b d))"
    using assms by (simp add: getChapters_def of_book_def distinct_map)
  moreover have "sorted (map spineIndex (getChapters b d))"
    by (simp add: getChapters_def)
  ultimately show ?thesis by (simp add: strict_sorted_iff)
qed

text \<open>
  C6. For every book, the chapter records persisted in the chapters store are totally
  ordered by a spine index that is unique per book, and \<^verbatim>\<open>getChapters\<close> returns them in
  spine-index order. In every database reached from the empty one by imports and by the
  deletions of \<^verbatim>\<open>confirmRemove\<close>: no two chapters of a book have the same spine index;
  \<^verbatim>\<open>getChapters\<close> returns the chapters of the book, all of them and nothing else, with
  strictly increasing spine indices; and the chapters of a book just imported come back
  in the order of the list they were created from.
\<close>

theorem chapters_in_spine_order:
  "distinct (map spineIndex (filter (\<lambda>c. bookId c = b) (chapters (db_run ops))))
   \<and> sorted_wrt (<) (map spineIndex (getChapters b (db_run ops)))
   \<and> set (getChapters b (db_run ops)) = {c \<in> set (chapters (db_run ops)). bookId c = b}
   \<and> length (getChapters b (db_run ops))
       = length (filter (\<lambda>c. bookId c = b) (chapters (db_run ops)))
   \<and> map (\<lambda>c. (chapter_title c, href c))
       (getChapters (next_book (db_run ops)) (importBook bk cs (db_run ops))) = cs"
proof -
  have ok: "spine_ok (db_run ops)" by (rule spine_ok_run)
  then have d: "distinct (map spineIndex (of_book b (db_run ops)))"
    by (simp add: spine_ok_def)
  have none: "of_book (next_book (db_run ops)) (db_run ops) = []"
    using ok by (auto simp: spine_ok_def of_book_def filter_empty_conv)
  let ?new = "map (new_chapter (next_chapter (db_run ops)) (next_book (db_run ops)))
                (enumerate 0 cs)"
  have g: "getChapters (next_book (db_run ops)) (importBook bk cs (db_run ops))
             = sort_key spineIndex ?new"
    using none
    by (simp add: getChapters_def importBook_def putChapters_def books_add_def of_book_def)
  have "sorted (map spineIndex ?new)" by simp
  then have "sort_key spineIndex ?new = ?new" by (rule sort_key_id_if_sorted)
  with g have "map (\<lambda>c. (chapter_title c, href c))
       (getChapters (next_book (db_run ops)) (importBook bk cs (db_run ops)))
     = map snd (enumerate 0 cs)"
    by (simp add: comp_def)
  also have "\<dots> = cs" by (simp add: enumerate_eq_zip)
  finally have rt: "map (\<lambda>c. (chapter_title c, href c))
       (getChapters (next_book (db_run ops)) (importBook bk cs (db_run ops))) = cs" .
  show ?thesis
    using d sorted_getChapters [OF d] rt
    by (auto simp: of_book_def getChapters_def)
qed

lemma demo_db: "db_run demo_ops =
  \<lparr>books = [demo_book\<lparr>book_id := 1\<rparr>],
   chapters = [\<lparr>chapter_id = 1, bookId = 1, spineIndex = 0, chapter_title = ''Volume I'', href = ''v1.xhtml''\<rparr>,
               \<lparr>chapter_id = 2, bookId = 1, spineIndex = 1, chapter_title = ''Volume II'', href = ''v2.xhtml''\<rparr>],
   next_book = 2, next_chapter = 3\<rparr>"
  by (simp add: db_run_def demo_ops_def importBook_def putChapters_def books_add_def empty_db_def
      new_chapter_def enumerate_eq_zip demo_book_def upt_rec)

theorem chapters_in_spine_order_witness:
  "map spineIndex (getChapters 1 (db_run demo_ops)) = [0, 1]
   \<and> sorted_wrt (<) (map spineIndex (getChapters 1 (db_run demo_ops)))
   \<and> map (\<lambda>c. (chapter_title c, href c))
       (getChapters (next_book (db_run demo_ops))
          (importBook demo_book [(''A'', ''a.xhtml''), (''B'', ''b.xhtml'')] (db_run demo_ops)))
       = [(''A'', ''a.xhtml''), (''B'', ''b.xhtml'')]"
proof -
  have "map spineIndex (getChapters 1 (db_run demo_ops)) = [0, 1]"
    by (simp add: demo_db getChapters_def)
  then show ?thesis
    using chapters_in_spine_order [of 1 demo_ops demo_book "[(''A'', ''a.xhtml''), (''B'', ''b.xhtml'')]"]
    by simp
qed

section \<open>Removing a book\<close>

lemma deletions_page [simp]:
  "cards (deletions a b c k l) = cards l"
  "objectUrls (deletions a b c k l) = objectUrls l"
  "revoked (deletions a b c k l) = revoked l"
  "toasts (deletions a b c k l) = toasts l"
  by (simp_all add: deletions_def deleteBook_def Let_def)

text \<open>
  C10. For every confirmed book removal: if any of the three deletions (book record,
  chapter records, stored file) rejects, the book card remains in the DOM and an error
  toast is shown, and no object URL is revoked; the card is removed from the DOM and its
  object URL revoked only when all three deletions succeed, and then they are.
\<close>

theorem card_removed_only_on_success:
  "(o_book = Rejected \<or> o_chapters = Rejected \<or> o_file = Rejected \<longrightarrow>
      cards (confirmRemove True o_book o_chapters o_file b l) = cards l
      \<and> objectUrls (confirmRemove True o_book o_chapters o_file b l) = objectUrls l
      \<and> revoked (confirmRemove True o_book o_chapters o_file b l) = revoked l
      \<and> toasts (confirmRemove True o_book o_chapters o_file b l) =
          toasts l @ [(''Failed to remove book'', ''error'')])
   \<and> (o_book = Fulfilled \<and> o_chapters = Fulfilled \<and> o_file = Fulfilled \<longrightarrow>
      cards (confirmRemove True o_book o_chapters o_file b l) = remove1 (book_id b) (cards l)
      \<and> objectUrls (confirmRemove True o_book o_chapters o_file b l) (book_id b) = None
      \<and> revoked (confirmRemove True o_book o_chapters o_file b l) =
          revoked l @ (case objectUrls l (book_id b) of None \<Rightarrow> [] | Some u \<Rightarrow> [u])
      \<and> toasts (confirmRemove True o_book o_chapters o_file b l) =
          toasts l @ [(''Book removed from library'', ''success'')])"
  by (cases o_book; cases o_chapters; cases o_file)
     (simp_all add: confirmRemove_def showToast_def updateEmptyState_def revoke_card_url_def
        Let_def split: option.splits)

theorem card_removed_only_on_success_witness:
  "cards (confirmRemove True Fulfilled Rejected Fulfilled stored_book demo_library) = [1]
   \<and> toasts (confirmRemove True Fulfilled Rejected Fulfilled stored_book demo_library)
       = [(''Failed to remove book'', ''error'')]
   \<and> revoked (confirmRemove True Fulfilled Rejected Fulfilled stored_book demo_library) = []
   \<and> cards (confirmRemove True Fulfilled Fulfilled Fulfilled stored_book demo_library) = []
   \<and> revoked (confirmRemove True Fulfilled Fulfilled Fulfilled stored_book demo_library) = [0]
   \<and> toasts (confirmRemove True Fulfilled Fulfilled Fulfilled stored_book demo_library)
       = [(''Book removed from library'', ''success'')]"
  using card_removed_only_on_success [of Fulfilled Rejected Fulfilled stored_book demo_library]
    card_removed_only_on_success [of Fulfilled Fulfilled Fulfilled stored_book demo_library]
  by (simp add: stored_book_def demo_library_def)

lemma rejected_chapters_stay:
  "chapters (db (confirmRemove True o_book Rejected o_file b l)) = chapters (db l)"
  by (simp add: confirmRemove_def deletions_def deleteBook_def books_delete_def
      showToast_def Let_def)

text \<open>
  C3. For every book, removing it from the library (the removal is confirmed and the three
  deletions succeed) deletes the book record, every chapter record whose \<^verbatim>\<open>bookId\<close> is the
  book's id, the stored raw file, and the book's persisted playback position; the records
  of other books stay. Each of the three deletions removes its own part, whatever becomes
  of the other two: the book record goes with \<^verbatim>\<open>db.books.delete\<close>, the chapter records
  with the deletion on \<^verbatim>\<open>db.chapters\<close>, the raw file and the position with
  \<^verbatim>\<open>deleteBook\<close>.
\<close>

theorem remove_cascades:
  "books (db (confirmRemove True Fulfilled Fulfilled Fulfilled b l)) =
      filter (\<lambda>x. book_id x \<noteq> book_id b) (books (db l))
   \<and> chapters (db (confirmRemove True Fulfilled Fulfilled Fulfilled b l)) =
      filter (\<lambda>c. bookId c \<noteq> book_id b) (chapters (db l))
   \<and> cache (stores (confirmRemove True Fulfilled Fulfilled Fulfilled b l))
       = removeAll (book_id b) (cache (stores l))
   \<and> positions (stores (confirmRemove True Fulfilled Fulfilled Fulfilled b l))
       = (positions (stores l))(book_id b := None)
   \<and> book_id b \<notin> book_id ` set (books (db (confirmRemove True Fulfilled Fulfilled Fulfilled b l)))
   \<and> book_id b \<notin> bookId ` set (chapters (db (confirmRemove True Fulfilled Fulfilled Fulfilled b l)))
   \<and> book_id b \<notin> set (cache (stores (confirmRemove True Fulfilled Fulfilled Fulfilled b l)))
   \<and> positions (stores (confirmRemove True Fulfilled Fulfilled Fulfilled b l)) (book_id b) = None
   \<and> books (db (confirmRemove True o_book o_chapters o_file b l)) =
       (if o_book = Fulfilled then filter (\<lambda>x. book_id x \<noteq> book_id b) (books (db l))
        else books (db l))
   \<and> chapters (db (confirmRemove True o_book o_chapters o_file b l)) =
       (if o_chapters = Fulfilled then filter (\<lambda>c. bookId c \<noteq> book_id b) (chapters (db l))
        else chapters (db l))
   \<and> stores (confirmRemove True o_book o_chapters o_file b l) =
       (if o_file = Fulfilled
        then \<lparr>cache = removeAll (book_id b) (cache (stores l)),
              positions = (positions (stores l))(book_id b := None)\<rparr>
        else stores l)"
proof -
  have all: "books (db (confirmRemove True Fulfilled Fulfilled Fulfilled b l)) =
      filter (\<lambda>x. book_id x \<noteq> book_id b) (books (db l))
   \<and> chapters (db (confirmRemove True Fulfilled Fulfilled Fulfilled b l)) =
      filter (\<lambda>c. bookId c \<noteq> book_id b) (chapters (db l))
   \<and> cache (stores (confirmRemove True Fulfilled Fulfilled Fulfilled b l))
       = removeAll (book_id b) (cache (stores l))
   \<and> positions (stores (confirmRemove True Fulfilled Fulfilled Fulfilled b l))
       = (positions (stores l))(book_id b := None)"
    by (simp add: confirmRemove_def deletions_def deleteBook_def books_delete_def
        chapters_delete_where_bookId_def showToast_def updateEmptyState_def revoke_card_url_def
        Let_def split: option.splits)
  then have gone:
    "book_id b \<notin> book_id ` set (books (db (confirmRemove True Fulfilled Fulfilled Fulfilled b l)))"
    "book_id b \<notin> bookId ` set (chapters (db (confirmRemove True Fulfilled Fulfilled Fulfilled b l)))"
    "book_id b \<notin> set (cache (stores (confirmRemove True Fulfilled Fulfilled Fulfilled b l)))"
    "positions (stores (confirmRemove True Fulfilled Fulfilled Fulfilled b l)) (book_id b) = None"
    by auto
  have each: "books (db (confirmRemove True o_book o_chapters o_file b l)) =
       (if o_book = Fulfilled then filter (\<lambda>x. book_id x \<noteq> book_id b) (books (db l))
        else books (db l))
   \<and> chapters (db (confirmRemove True o_book o_chapters o_file b l)) =
       (if o_chapters = Fulfilled then filter (\<lambda>c. bookId c \<noteq> book_id b) (chapters (db l))
        else chapters (db l))
   \<and> stores (confirmRemove True o_book o_chapters o_file b l) =
       (if o_file = Fulfilled
        then \<lparr>cache = removeAll (book_id b) (cache (stores l)),
              positions = (positions (stores l))(book_id b := None)\<rparr>
        else stores l)"
    by (cases o_book; cases o_chapters; cases o_file)
       (simp_all add: confirmRemove_def deletions_def deleteBook_def books_delete_def
          chapters_delete_where_bookId_def showToast_def updateEmptyState_def
          revoke_card_url_def Let_def split: option.splits)
  show ?thesis using all gone each by blast
qed

theorem remove_cascades_witness:
  "books (db demo_library) = [stored_book]
   \<and> length (chapters (db demo_library)) = 2
   \<and> cache (stores demo_library) = [1]
   \<and> positions (stores demo_library) 1 = Some (0, 3)
   \<and> books (db (confirmRemove True Fulfilled Fulfilled Fulfilled stored_book demo_library)) = []
   \<and> chapters (db (confirmRemove True Fulfilled Fulfilled Fulfilled stored_book demo_library)) = []
   \<and> cache (stores (confirmRemove True Fulfilled Fulfilled Fulfilled stored_book demo_library)) = []
   \<and> positions (stores (confirmRemove True Fulfilled Fulfilled Fulfilled stored_book demo_library)) 1
       = None
   \<and> length (chapters (db (confirmRemove True Fulfilled Rejected Fulfilled stored_book
        demo_library))) = 2"
  using remove_cascades [of stored_book demo_library Fulfilled Fulfilled Fulfilled]
    remove_cascades [of stored_book demo_library Fulfilled Rejected Fulfilled]
  by (simp add: stored_book_def demo_library_def demo_db)

section \<open>Tokenizer examples\<close>

text \<open>
  C4. Tokenizing "Dr. Smith arrived at 3.14pm. He left." yields exactly two sentences,
  with no split at "Dr." or inside "3.14"; tokenizing "Wait... really?! Yes." yields
  exactly three, split only after the ellipsis run and after "?!".
\<close>

theorem tokenize_examples:
  "tokenize ''Dr. Smith arrived at 3.14pm. He left.''
     = [''Dr. Smith arrived at 3.14pm.'', ''He left.'']
   \<and> tokenize ''Wait... really?! Yes.'' = [''Wait...'', ''really?!'', ''Yes.'']"
  by code_simp

end
